theory Spec2Isabelle
  imports Complex_Main "HOL-Library.Sublist" "HOL-Library.AList" "HOL-Library.Multiset"
begin

section \<open>Python strings and objects\<close>

text \<open>
  A Python \<^verbatim>\<open>str\<close> is the sequence of its code points. \<open>ascii\<close> writes the str of an
  ASCII literal.
\<close>

type_synonym pystr = "nat list"

definition ascii :: "string \<Rightarrow> pystr" where
  "ascii s = map of_char s"

text \<open>
  \<^verbatim>\<open>str.lower\<close> and the whitespace test of \<^verbatim>\<open>str.split\<close> belong to the Python library,
  not to the repository. The operations below take them as the parameters
  \<open>lower\<close> (a function on whole strings: the library's case mapping looks at a
  character's neighbours) and \<open>is_space\<close> (a test on code points), and every
  statement about them holds whatever these two are. \<open>ascii_lower\<close> and
  \<open>ascii_space\<close> are what the library computes on ASCII text (A..Z to a..z; the
  whitespace code points 9..13, 28..31 and 32); they stand for the parameters where an
  operation is run on an ASCII example.
\<close>

definition ascii_lower :: "pystr \<Rightarrow> pystr" where
  "ascii_lower s = map (\<lambda>n. if 65 \<le> n \<and> n \<le> 90 then n + 32 else n) s"

definition ascii_space :: "nat \<Rightarrow> bool" where
  "ascii_space n = ((9 \<le> n \<and> n \<le> 13) \<or> (28 \<le> n \<and> n \<le> 32))"

text \<open>
  \<^verbatim>\<open>query.split()\<close> with no separator: the maximal runs of non-whitespace characters,
  in order. \<open>cur\<close> is the run being read.
\<close>

fun split_from :: "(nat \<Rightarrow> bool) \<Rightarrow> pystr \<Rightarrow> pystr \<Rightarrow> pystr list" where
  "split_from is_space cur [] = (if cur = [] then [] else [cur])"
| "split_from is_space cur (c # cs) =
     (if is_space c
      then (if cur = [] then split_from is_space [] cs else cur # split_from is_space [] cs)
      else split_from is_space (cur @ [c]) cs)"

definition str_split :: "(nat \<Rightarrow> bool) \<Rightarrow> pystr \<Rightarrow> pystr list" where
  "str_split is_space s = split_from is_space [] s"

text \<open>
  The values of a metadata dictionary (\<^verbatim>\<open>Dict[str, object]\<close>). \<^verbatim>\<open>add_interaction\<close> takes
  the truth value of a value and its \<^verbatim>\<open>str()\<close>, and both may raise. An object that is
  not \<^verbatim>\<open>None\<close>, a bool, an int or a str is given by what these two yield for it.
\<close>

datatype exn = ValueError | OtherException nat

datatype pyobj =
    PyNone
  | PyBool bool
  | PyInt int
  | PyStr pystr
  | PyOther "exn + bool" "exn + pystr"






section \<open>The interaction memory (services/memory.py)\<close>

type_synonym datetime = int

record MemoryRecord =
  user_input :: pystr
  ai_response :: pystr
  metadata :: "pystr \<rightharpoonup> pyobj"
  created_at :: datetime

text \<open>
  \<^verbatim>\<open>MemoryService._sessions\<close> is a dictionary from bucket key to the bucket's records.
  Python dictionaries iterate in insertion order, so it is an association list with
  each key once: \<open>map_of\<close> looks a key up, \<open>AList.update\<close> replaces a value in place
  or adds the new key last.
\<close>

type_synonym MemoryService = "(pystr \<times> MemoryRecord list) list"



definition tokens :: "(pystr \<Rightarrow> pystr) \<Rightarrow> (nat \<Rightarrow> bool) \<Rightarrow> pystr \<Rightarrow> pystr set" where
  "tokens lower is_space query =
     set (map lower (filter (\<lambda>token. token \<noteq> []) (str_split is_space query)))"

text \<open>\<^verbatim>\<open>f"{record.user_input} {record.ai_response}".lower()\<close>\<close>

definition haystack :: "(pystr \<Rightarrow> pystr) \<Rightarrow> MemoryRecord \<Rightarrow> pystr" where
  "haystack lower r = lower (user_input r @ ascii '' '' @ ai_response r)"

definition record_matches :: "(pystr \<Rightarrow> pystr) \<Rightarrow> pystr set \<Rightarrow> MemoryRecord \<Rightarrow> bool" where
  "record_matches lower toks r = (\<forall>token \<in> toks. sublist token (haystack lower r))"

text \<open>
  The inner loop over one bucket. The flag of the result says that the loop left the
  function through \<^verbatim>\<open>return matches\<close>; the test against the limit is made only right
  after an append, as in the source.
\<close>

fun scan_session ::
  "(pystr \<Rightarrow> pystr) \<Rightarrow> pystr set \<Rightarrow> int \<Rightarrow> MemoryRecord list \<Rightarrow> pystr list
     \<Rightarrow> pystr list \<times> bool" where
  "scan_session lower toks limit [] matches = (matches, False)"
| "scan_session lower toks limit (r # rs) matches =
     (if record_matches lower toks r then
        (let matches' = matches @ [ai_response r]
         in if int (length matches') \<ge> limit then (matches', True)
            else scan_session lower toks limit rs matches')
      else scan_session lower toks limit rs matches)"

fun scan_sessions ::
  "(pystr \<Rightarrow> pystr) \<Rightarrow> pystr set \<Rightarrow> int \<Rightarrow> MemoryRecord list list \<Rightarrow> pystr list
     \<Rightarrow> pystr list" where
  "scan_sessions lower toks limit [] matches = matches"
| "scan_sessions lower toks limit (session # rest) matches =
     (case scan_session lower toks limit session matches of
        (matches', True) \<Rightarrow> matches'
      | (matches', False) \<Rightarrow> scan_sessions lower toks limit rest matches')"

definition search_memories ::
  "(pystr \<Rightarrow> pystr) \<Rightarrow> (nat \<Rightarrow> bool) \<Rightarrow> MemoryService \<Rightarrow> pystr \<Rightarrow> int \<Rightarrow> pystr list" where
  "search_memories lower is_space ms query limit =
     scan_sessions lower (tokens lower is_space query) limit (map snd ms) []"

text \<open>All stored records in scan order: bucket after bucket, each oldest first.\<close>

definition all_records :: "MemoryService \<Rightarrow> MemoryRecord list" where
  "all_records ms = concat (map snd ms)"

text \<open>
  The responses of the records of a list that match, in the list's order, and the
  strings without a whitespace character.
\<close>

definition matching :: "(pystr \<Rightarrow> pystr) \<Rightarrow> pystr set \<Rightarrow> MemoryRecord list \<Rightarrow> pystr list" where
  "matching lower toks rs = map ai_response (filter (record_matches lower toks) rs)"

definition no_space :: "(nat \<Rightarrow> bool) \<Rightarrow> pystr \<Rightarrow> bool" where
  "no_space is_space w = (\<forall>c \<in> set w. \<not> is_space c)"

section \<open>The session store (schemas.py, services/storage.py)\<close>

text \<open>
  A \<^verbatim>\<open>date\<close> is its proleptic Gregorian ordinal (\<^verbatim>\<open>date.toordinal()\<close>), a \<^verbatim>\<open>time\<close>
  a count since midnight, a \<^verbatim>\<open>datetime\<close> a count on the clock's axis, a \<^verbatim>\<open>UUID\<close> a
  number. Fields are named as in the source, with a prefix where two classes share a
  field name or the name is taken (\<open>s_id\<close> and \<open>s_date\<close> are \<^verbatim>\<open>DailySession.id\<close> and
  \<^verbatim>\<open>DailySession.date\<close>, \<open>er_energy_pattern\<close> is \<^verbatim>\<open>EveningReflection.energy_pattern\<close>).
\<close>

type_synonym date = int
type_synonym time = nat
type_synonym uuid = nat

record MorningContext =
  energy_level :: int
  top_of_mind :: "string list"
  intended_focus :: string
  blockers :: "string list"

text \<open>\<^verbatim>\<open>energy_level: int = Field(ge=1, le=5)\<close>: what construction of the model checks.\<close>

definition MorningContext_valid :: "MorningContext \<Rightarrow> bool" where
  "MorningContext_valid c = (1 \<le> energy_level c \<and> energy_level c \<le> 5)"

record EveningReflection =
  actual_focus :: string
  wins :: "string list"
  challenges :: "string list"
  tomorrow_intent :: string
  er_energy_pattern :: "(time \<times> int) list"

record Decision =
  d_id :: uuid
  d_session_id :: uuid
  question :: string
  d_context :: string
  options_considered :: "string list"
  chosen_option :: "string option"
  reasoning :: "string option"
  outcome :: "string option"
  timestamp :: datetime

record PlannerEvent =
  e_timestamp :: datetime
  e_session_id :: uuid
  description :: string

record DailySession =
  s_id :: uuid
  s_date :: date
  morning_context :: "MorningContext option"
  evening_reflection :: "EveningReflection option"
  decisions :: "Decision list"
  energy_pattern :: "(time \<times> int) list"

text \<open>
  \<^verbatim>\<open>InMemoryStore._sessions\<close> (an insertion-ordered dictionary, as an association list)
  and \<^verbatim>\<open>InMemoryStore._events\<close>. The task table is left out: no operation below reads it.
\<close>

record InMemoryStore =
  sessions :: "(date \<times> DailySession) list"
  events :: "PlannerEvent list"

text \<open>\<open>fresh\<close> is the identifier \<^verbatim>\<open>uuid4()\<close> yields if a session is constructed.\<close>

definition get_or_create_session :: "InMemoryStore \<Rightarrow> date \<Rightarrow> uuid \<Rightarrow> DailySession \<times> InMemoryStore" where
  "get_or_create_session st session_date fresh =
     (case map_of (sessions st) session_date of
        None \<Rightarrow>
          (let s = \<lparr>s_id = fresh, s_date = session_date, morning_context = None,
                    evening_reflection = None, decisions = [], energy_pattern = []\<rparr>
           in (s, st\<lparr>sessions := AList.update session_date s (sessions st)\<rparr>))
      | Some s \<Rightarrow> (s, st))"

definition get_session :: "InMemoryStore \<Rightarrow> date \<Rightarrow> DailySession option" where
  "get_session st session_date = map_of (sessions st) session_date"

text \<open>\<open>now\<close> is \<^verbatim>\<open>datetime.utcnow().time()\<close>.\<close>

definition update_morning_context ::
  "InMemoryStore \<Rightarrow> date \<Rightarrow> MorningContext \<Rightarrow> time \<Rightarrow> uuid \<Rightarrow> DailySession \<times> InMemoryStore" where
  "update_morning_context st session_date ctx now fresh =
     (let (session, st1) = get_or_create_session st session_date fresh;
          session' = session\<lparr>morning_context := Some ctx,
                             energy_pattern := energy_pattern session @ [(now, energy_level ctx)]\<rparr>
      in (session', st1\<lparr>sessions := AList.update session_date session' (sessions st1)\<rparr>))"

definition update_evening_reflection ::
  "InMemoryStore \<Rightarrow> date \<Rightarrow> EveningReflection \<Rightarrow> uuid \<Rightarrow> DailySession \<times> InMemoryStore" where
  "update_evening_reflection st session_date reflection fresh =
     (let (session, st1) = get_or_create_session st session_date fresh;
          session' = session\<lparr>evening_reflection := Some reflection,
                             energy_pattern :=
                               (if er_energy_pattern reflection \<noteq> []
                                then energy_pattern session @ er_energy_pattern reflection
                                else energy_pattern session)\<rparr>
      in (session', st1\<lparr>sessions := AList.update session_date session' (sessions st1)\<rparr>))"

definition add_decision ::
  "InMemoryStore \<Rightarrow> date \<Rightarrow> Decision \<Rightarrow> uuid \<Rightarrow> DailySession \<times> InMemoryStore" where
  "add_decision st session_date decision fresh =
     (let (session, st1) = get_or_create_session st session_date fresh;
          session' = session\<lparr>decisions := decisions session @ [decision]\<rparr>
      in (session', st1\<lparr>sessions := AList.update session_date session' (sessions st1)\<rparr>))"

definition get_sessions_between :: "InMemoryStore \<Rightarrow> date \<Rightarrow> date \<Rightarrow> DailySession list" where
  "get_sessions_between st start end_date =
     map snd (filter (\<lambda>(session_date, session). start \<le> session_date \<and> session_date \<le> end_date)
                     (sessions st))"

text \<open>
  \<^verbatim>\<open>sorted(xs, key=k, reverse=True)\<close> and \<^verbatim>\<open>xs.sort(key=k, reverse=True)\<close>: descending
  by key, elements with equal keys in their original order (Python reverses, sorts
  stably and reverses again).
\<close>

definition sorted_desc :: "('a \<Rightarrow> 'k::linorder) \<Rightarrow> 'a list \<Rightarrow> 'a list" where
  "sorted_desc k xs = rev (sort_key k (rev xs))"

definition list_sessions :: "InMemoryStore \<Rightarrow> DailySession list" where
  "list_sessions st = sorted_desc s_date (map snd (sessions st))"

text \<open>
  The slices \<^verbatim>\<open>xs[i:]\<close> and \<^verbatim>\<open>xs[:i]\<close>: a negative index counts from the end, and an
  index beyond either end is clamped.
\<close>

definition slice_index :: "int \<Rightarrow> nat \<Rightarrow> nat" where
  "slice_index i n = (if i < 0 then nat (max 0 (i + int n)) else nat (min i (int n)))"

definition slice_from :: "int \<Rightarrow> 'a list \<Rightarrow> 'a list" where
  "slice_from i xs = drop (slice_index i (length xs)) xs"

definition slice_to :: "int \<Rightarrow> 'a list \<Rightarrow> 'a list" where
  "slice_to i xs = take (slice_index i (length xs)) xs"

definition add_event :: "InMemoryStore \<Rightarrow> PlannerEvent \<Rightarrow> InMemoryStore" where
  "add_event st event = st\<lparr>events := events st @ [event]\<rparr>"

definition recent_events :: "InMemoryStore \<Rightarrow> int \<Rightarrow> PlannerEvent list" where
  "recent_events st limit = slice_from (- limit) (events st)"

definition recent_decisions :: "InMemoryStore \<Rightarrow> int \<Rightarrow> Decision list" where
  "recent_decisions st limit =
     slice_to limit (sorted_desc timestamp (concat (map decisions (list_sessions st))))"

text \<open>
  The calls that append to an energy timeline, as a sequence: each carries the date it
  is made for and the values the source reads from its environment. \<open>timeline\<close> is the
  energy pattern of a date's session (empty while the date has no session), and
  \<open>appended\<close> the samples one call appends for a date.
\<close>

datatype energy_update =
    Morning date MorningContext time uuid
  | Evening date EveningReflection uuid

fun apply_update :: "InMemoryStore \<Rightarrow> energy_update \<Rightarrow> InMemoryStore" where
  "apply_update st (Morning d ctx now fresh) = snd (update_morning_context st d ctx now fresh)"
| "apply_update st (Evening d reflection fresh) = snd (update_evening_reflection st d reflection fresh)"

fun appended :: "date \<Rightarrow> energy_update \<Rightarrow> (time \<times> int) list" where
  "appended d (Morning d' ctx now fresh) = (if d' = d then [(now, energy_level ctx)] else [])"
| "appended d (Evening d' reflection fresh) = (if d' = d then er_energy_pattern reflection else [])"

definition timeline :: "InMemoryStore \<Rightarrow> date \<Rightarrow> (time \<times> int) list" where
  "timeline st d = (case get_session st d of None \<Rightarrow> [] | Some s \<Rightarrow> energy_pattern s)"

section \<open>The weekly report (services/planner.py)\<close>

datatype error = OverflowError

text \<open>
  \<^verbatim>\<open>d - timedelta(days=n)\<close>: dates run from \<^verbatim>\<open>date.min\<close> (ordinal 1) to \<^verbatim>\<open>date.max\<close>
  (ordinal 3652059), and a result outside raises \<^verbatim>\<open>OverflowError\<close>.
\<close>

definition date_minus_days :: "date \<Rightarrow> int \<Rightarrow> error + date" where
  "date_minus_days d n =
     (if 1 \<le> d - n \<and> d - n \<le> 3652059 then Inr (d - n) else Inl OverflowError)"

text \<open>
  \<^verbatim>\<open>PlannerService._average_energy\<close>. The quotient is exact here; Python's float
  quotient of two integers is zero exactly when this one is.
\<close>

definition average_energy :: "DailySession list \<Rightarrow> rat option" where
  "average_energy ss =
     (let points = concat (map (\<lambda>session. map snd (energy_pattern session)) ss)
      in if points = [] then None
         else Some (of_int (sum_list points) / of_int (int (length points))))"

text \<open>
  The response keeps the values its lines are rendered from: the days of the
  \<^verbatim>\<open>"High energy on: ..."\<close> line, the count of the \<^verbatim>\<open>"Captured n evening reflections"\<close>
  line and the average of the \<^verbatim>\<open>"Average recorded energy: ..."\<close> line.
\<close>

datatype highlight = HighEnergyOn "date list" | CapturedReflections nat

datatype energy_trend = AverageRecordedEnergy rat

record WeeklyPatternsResponse =
  summary :: string
  highlights :: "highlight list"
  energy_trends :: "energy_trend list"

definition high_energy :: "DailySession \<Rightarrow> bool" where
  "high_energy session =
     (energy_pattern session \<noteq> [] \<and> Max (set (map snd (energy_pattern session))) \<ge> 4)"

text \<open>\<open>today\<close> is \<^verbatim>\<open>date.today()\<close>.\<close>

definition weekly_patterns :: "InMemoryStore \<Rightarrow> date \<Rightarrow> error + WeeklyPatternsResponse" where
  "weekly_patterns st today =
     (case date_minus_days today 6 of
        Inl e \<Rightarrow> Inl e
      | Inr start \<Rightarrow>
          (let ss = get_sessions_between st start today;
               high_energy_days = map s_date (filter high_energy ss);
               highlights1 = (if high_energy_days \<noteq> [] then [HighEnergyOn high_energy_days] else []);
               reflection_count = length (filter (\<lambda>session. evening_reflection session \<noteq> None) ss);
               highlights2 = highlights1 @ [CapturedReflections reflection_count];
               average = average_energy ss;
               trends = (case average of
                           None \<Rightarrow> []
                         | Some a \<Rightarrow> if a \<noteq> 0 then [AverageRecordedEnergy a] else [])
           in Inr \<lparr>summary = (if ss \<noteq> [] then ''Weekly review prepared.''
                                else ''No sessions recorded this week.''),
                   highlights = highlights2,
                   energy_trends = trends\<rparr>))"

section \<open>Example states\<close>

definition rec_a :: MemoryRecord where
  "rec_a = \<lparr>user_input = ascii ''Morning'', ai_response = ascii ''Focus on energy'',
            metadata = Map.empty, created_at = 1\<rparr>"

definition rec_b :: MemoryRecord where
  "rec_b = \<lparr>user_input = ascii ''chat'', ai_response = ascii ''Stay in focus'',
            metadata = Map.empty, created_at = 2\<rparr>"

definition rec_c :: MemoryRecord where
  "rec_c = \<lparr>user_input = ascii ''My ENERGY'', ai_response = ascii ''focused'',
            metadata = Map.empty, created_at = 3\<rparr>"

definition ms0 :: MemoryService where
  "ms0 = [(ascii ''2024-05-01'', [rec_a, rec_b]), (ascii ''s1'', [rec_c])]"

definition empty_store :: InMemoryStore where
  "empty_store = \<lparr>sessions = [], events = []\<rparr>"

definition ctx0 :: MorningContext where
  "ctx0 = \<lparr>energy_level = 3, top_of_mind = [], intended_focus = ''write'', blockers = []\<rparr>"

definition reflection0 :: "(time \<times> int) list \<Rightarrow> EveningReflection" where
  "reflection0 samples = \<lparr>actual_focus = ''wrote'', wins = [], challenges = [],
                          tomorrow_intent = ''rest'', er_energy_pattern = samples\<rparr>"

definition decision0 :: "uuid \<Rightarrow> datetime \<Rightarrow> Decision" where
  "decision0 i t = \<lparr>d_id = i, d_session_id = 0, question = ''q'', d_context = ''c'',
                    options_considered = [], chosen_option = None, reasoning = None,
                    outcome = None, timestamp = t\<rparr>"

definition event0 :: "datetime \<Rightarrow> PlannerEvent" where
  "event0 t = \<lparr>e_timestamp = t, e_session_id = 0, description = ''Evening reflection captured''\<rparr>"


section \<open>Search: what a scan returns\<close>

lemma matching_append:
  "matching lower toks (a @ b) = matching lower toks a @ matching lower toks b"
  by (simp add: matching_def)

text \<open>
  One bucket, started below the limit: the loop returns early exactly when the matches
  reach the limit. A limit below one behaves as the limit one, since the test follows
  an append.
\<close>

lemma scan_session_char:
  "int (length matches) < max 1 limit \<Longrightarrow>
   scan_session lower toks limit rs matches =
     (let al = matches @ matching lower toks rs
      in if int (length al) \<ge> max 1 limit then (take (nat (max 1 limit)) al, True)
         else (al, False))"
proof (induction rs arbitrary: matches)
  case Nil
  then show ?case by (auto simp: matching_def)
next
  case (Cons r rs)
  show ?case
  proof (cases "record_matches lower toks r")
    case False
    with Cons show ?thesis by (simp add: matching_def)
  next
    case True
    show ?thesis
    proof (cases "int (length (matches @ [ai_response r])) \<ge> limit")
      case stop: True
      with Cons.prems have "nat (max 1 limit) = Suc (length matches)" by auto
      with True stop show ?thesis
        by (simp add: matching_def Let_def)
    next
      case go: False
      then have "int (length (matches @ [ai_response r])) < max 1 limit" by simp
      from Cons.IH[OF this] True go show ?thesis
        by (simp add: matching_def Let_def)
    qed
  qed
qed

lemma scan_sessions_char:
  "int (length matches) < max 1 limit \<Longrightarrow>
   scan_sessions lower toks limit ss matches =
     take (nat (max 1 limit)) (matches @ matching lower toks (concat ss))"
proof (induction ss arbitrary: matches)
  case Nil
  then show ?case by (auto simp: matching_def)
next
  case (Cons s ss)
  let ?al = "matches @ matching lower toks s"
  show ?case
  proof (cases "int (length ?al) \<ge> max 1 limit")
    case True
    then have le: "nat (max 1 limit) \<le> length ?al" by linarith
    from scan_session_char[OF Cons.prems, of lower toks s] True
    have "scan_session lower toks limit s matches = (take (nat (max 1 limit)) ?al, True)"
      by (auto simp: Let_def)
    then have "scan_sessions lower toks limit (s # ss) matches = take (nat (max 1 limit)) ?al"
      by simp
    also from le have "\<dots> = take (nat (max 1 limit)) (?al @ matching lower toks (concat ss))"
      by simp
    finally show ?thesis by (simp add: matching_append)
  next
    case False
    then have lt: "int (length ?al) < max 1 limit" by linarith
    from scan_session_char[OF Cons.prems, of lower toks s] False
    have "scan_session lower toks limit s matches = (?al, False)"
      by (auto simp: Let_def)
    then have "scan_sessions lower toks limit (s # ss) matches
        = scan_sessions lower toks limit ss ?al"
      by simp
    also have "\<dots> = take (nat (max 1 limit)) (?al @ matching lower toks (concat ss))"
      by (rule Cons.IH[OF lt])
    finally show ?thesis by (simp add: matching_append)
  qed
qed

lemma search_memories_take:
  "search_memories lower is_space ms query limit =
     take (nat (max 1 limit)) (matching lower (tokens lower is_space query) (all_records ms))"
  by (simp add: search_memories_def all_records_def scan_sessions_char)

subsection \<open>The pieces of a split\<close>

text \<open>
  Every piece \<^verbatim>\<open>split()\<close> yields is a non-empty stretch of the string that holds no
  whitespace character.
\<close>

lemma split_from_no_space:
  "no_space is_space cur \<Longrightarrow> w \<in> set (split_from is_space cur s) \<Longrightarrow> no_space is_space w"
proof (induction s arbitrary: cur)
  case Nil
  then show ?case by (simp split: if_splits)
next
  case (Cons c cs)
  have e: "no_space is_space []" by (simp add: no_space_def)
  show ?case
  proof (cases "is_space c")
    case True
    with Cons.prems have "w = cur \<or> w \<in> set (split_from is_space [] cs)"
      by (simp split: if_splits)
    with Cons.prems(1) Cons.IH[OF e] show ?thesis by blast
  next
    case False
    with Cons.prems(1) have n: "no_space is_space (cur @ [c])" by (simp add: no_space_def)
    from False Cons.prems(2) have "w \<in> set (split_from is_space (cur @ [c]) cs)" by simp
    from Cons.IH[OF n this] show ?thesis .
  qed
qed

lemma split_from_sublist:
  "w \<in> set (split_from is_space cur s) \<Longrightarrow> sublist w (cur @ s)"
proof (induction s arbitrary: cur)
  case Nil
  then show ?case by (simp split: if_splits)
next
  case (Cons c cs)
  show ?case
  proof (cases "is_space c")
    case True
    with Cons.prems have "w = cur \<or> w \<in> set (split_from is_space [] cs)"
      by (simp split: if_splits)
    then show ?thesis
    proof
      assume "w = cur"
      then show ?thesis by simp
    next
      assume "w \<in> set (split_from is_space [] cs)"
      then have "sublist w ([] @ cs)" by (rule Cons.IH)
      then have "sublist w cs" by simp
      then obtain ps ss where "cs = ps @ w @ ss" unfolding sublist_def by blast
      then have "cur @ c # cs = (cur @ c # ps) @ w @ ss" by simp
      then show ?thesis unfolding sublist_def by blast
    qed
  next
    case False
    with Cons.prems have "w \<in> set (split_from is_space (cur @ [c]) cs)" by simp
    then have "sublist w ((cur @ [c]) @ cs)" by (rule Cons.IH)
    then show ?thesis by simp
  qed
qed

lemma tokens_pieces:
  assumes "token \<in> tokens lower is_space query"
  shows "\<exists>w. token = lower w \<and> w \<noteq> [] \<and> no_space is_space w \<and> sublist w query"
proof -
  from assms obtain w where w: "w \<in> set (str_split is_space query)" "w \<noteq> []" "token = lower w"
    by (auto simp: tokens_def)
  have "no_space is_space []" by (simp add: no_space_def)
  with w(1) have n: "no_space is_space w"
    unfolding str_split_def by (rule split_from_no_space[rotated])
  from w(1) have "sublist w ([] @ query)"
    unfolding str_split_def by (rule split_from_sublist)
  with w n show ?thesis by auto
qed

subsection \<open>Conjunctive containment\<close>

text \<open>
  C1. Whatever \<open>search_memories\<close> returns is the list of the response texts of stored
  records, taken in scan order, each of which holds every token of the query: each
  token is a substring of the record's haystack, the lower-cased text made of the
  user input, a space and the response. The tokens are the lower-cased forms of
  non-empty, whitespace-free stretches of the query. A record that lacks one of the
  tokens is not among the records returned. This holds for every case mapping and
  every whitespace test in the place of the library's.
\<close>

theorem search_memories_conjunctive:
  "\<exists>recs. search_memories lower is_space ms query limit = map ai_response recs \<and>
          subseq recs (all_records ms) \<and>
          (\<forall>r \<in> set recs. \<forall>token \<in> tokens lower is_space query.
             sublist token (haystack lower r) \<and>
             (\<exists>w. token = lower w \<and> w \<noteq> [] \<and> no_space is_space w \<and> sublist w query))"
proof -
  let ?toks = "tokens lower is_space query"
  let ?N = "nat (max 1 limit)"
  let ?recs = "take ?N (filter (record_matches lower ?toks) (all_records ms))"
  have 1: "search_memories lower is_space ms query limit = map ai_response ?recs"
    by (simp add: search_memories_take matching_def take_map)
  have "subseq ?recs (filter (record_matches lower ?toks) (all_records ms))"
    by (rule prefix_imp_subseq) (rule take_is_prefix)
  then have 2: "subseq ?recs (all_records ms)"
    by (rule subseq_order.trans) (rule subseq_filter_left)
  have 3: "sublist token (haystack lower r) \<and>
           (\<exists>w. token = lower w \<and> w \<noteq> [] \<and> no_space is_space w \<and> sublist w query)"
    if "r \<in> set ?recs" and "token \<in> ?toks" for r token
  proof -
    from that(1) have "r \<in> set (filter (record_matches lower ?toks) (all_records ms))"
      by (rule in_set_takeD)
    then have "record_matches lower ?toks r" by simp
    with that(2) have "sublist token (haystack lower r)" by (simp add: record_matches_def)
    with tokens_pieces[OF that(2)] show ?thesis by blast
  qed
  from 1 2 3 show ?thesis by blast
qed

theorem search_memories_conjunctive_witness:
  "search_memories ascii_lower ascii_space ms0 (ascii ''focus  Energy'') 5
     = [ascii ''Focus on energy'', ascii ''focused''] \<and>
   (\<exists>recs. [ascii ''Focus on energy'', ascii ''focused''] = map ai_response recs \<and>
          subseq recs (all_records ms0) \<and>
          (\<forall>r \<in> set recs. \<forall>token \<in> {ascii ''focus'', ascii ''energy''}.
             sublist token (haystack ascii_lower r)))"
proof -
  have e: "search_memories ascii_lower ascii_space ms0 (ascii ''focus  Energy'') 5
      = [ascii ''Focus on energy'', ascii ''focused'']"
    by code_simp
  have t: "tokens ascii_lower ascii_space (ascii ''focus  Energy'')
      = {ascii ''focus'', ascii ''energy''}"
    by code_simp
  from search_memories_conjunctive [of ascii_lower ascii_space ms0 "ascii ''focus  Energy''" 5]
  have "\<exists>recs. [ascii ''Focus on energy'', ascii ''focused''] = map ai_response recs \<and>
          subseq recs (all_records ms0) \<and>
          (\<forall>r \<in> set recs. \<forall>token \<in> {ascii ''focus'', ascii ''energy''}.
             sublist token (haystack ascii_lower r))"
    unfolding e t by (elim exE conjE, intro exI conjI) (assumption, assumption, fast)
  with e show ?thesis by simp
qed

subsection \<open>Early stop\<close>

text \<open>
  With a limit of at least one the scan returns the first \<open>limit\<close> matches in scan
  order and nothing after them.
\<close>

lemma search_memories_early_stop:
  "1 \<le> limit \<Longrightarrow>
   search_memories lower is_space ms query limit =
     take (nat limit) (matching lower (tokens lower is_space query) (all_records ms))"
  by (simp add: search_memories_take max_def)

lemma search_memories_length:
  "1 \<le> limit \<Longrightarrow> int (length (search_memories lower is_space ms query limit)) \<le> limit"
  by (simp add: search_memories_early_stop)

text \<open>
  C2. With the limit 0 the scan still returns a result: the first match is appended
  before the length is compared with the limit, so the result has one element where
  a limit of 0 allows none.
\<close>

theorem search_memories_limit_zero:
  "search_memories ascii_lower ascii_space ms0 (ascii ''focus'') 0 = [ascii ''Focus on energy''] \<and>
   length (search_memories ascii_lower ascii_space ms0 (ascii ''focus'') 0) = 1"
proof -
  have "search_memories ascii_lower ascii_space ms0 (ascii ''focus'') 0
      = [ascii ''Focus on energy'']"
    by code_simp
  then show ?thesis by simp
qed

subsection \<open>A query of whitespace only\<close>

lemma split_from_spaces: "\<forall>c \<in> set s. is_space c \<Longrightarrow> split_from is_space [] s = []"
  by (induction s) simp_all

lemma tokens_spaces: "\<forall>c \<in> set query. is_space c \<Longrightarrow> tokens lower is_space query = {}"
  by (simp add: tokens_def str_split_def split_from_spaces)

lemma matching_no_tokens: "matching lower {} rs = map ai_response rs"
  by (simp add: matching_def record_matches_def)

text \<open>
  A query that is empty or holds whitespace only has no token, so every stored record
  matches it; with a limit of at least one the search returns the response texts of
  the first \<open>limit\<close> records in scan order, and with any limit its result is not
  empty unless the memory is.
\<close>

lemma blank_query_first_records:
  assumes "\<forall>c \<in> set query. is_space c"
  shows "tokens lower is_space query = {} \<and>
         record_matches lower (tokens lower is_space query) r \<and>
         (1 \<le> limit \<longrightarrow>
            search_memories lower is_space ms query limit
              = take (nat limit) (map ai_response (all_records ms))) \<and>
         (all_records ms \<noteq> [] \<longrightarrow> search_memories lower is_space ms query limit \<noteq> [])"
proof -
  from assms have t: "tokens lower is_space query = {}" by (rule tokens_spaces)
  then have m: "record_matches lower (tokens lower is_space query) r"
    by (simp add: record_matches_def)
  from t have e: "search_memories lower is_space ms query limit
      = take (nat limit) (map ai_response (all_records ms))"
    if "1 \<le> limit"
    using that by (simp add: search_memories_early_stop matching_no_tokens)
  have "0 < nat (max 1 limit)" by simp
  with t have n: "search_memories lower is_space ms query limit \<noteq> []" if "all_records ms \<noteq> []"
    using that by (simp add: search_memories_take matching_no_tokens)
  from t m e n show ?thesis by blast
qed

text \<open>
  C10. For the query of two spaces and the limit 0 the search returns the response of
  the first stored record: every record matches the blank query, and the first one is
  appended before the length is compared with the limit, where the first 0 records
  are none. The empty query does the same whatever the case mapping and the
  whitespace test are.
\<close>

theorem search_memories_blank_limit_zero:
  "search_memories ascii_lower ascii_space ms0 (ascii ''  '') 0 = [ascii ''Focus on energy''] \<and>
   search_memories lower is_space ms0 [] 0 = [ascii ''Focus on energy'']"
proof -
  have 1: "search_memories ascii_lower ascii_space ms0 (ascii ''  '') 0
      = [ascii ''Focus on energy'']"
    by code_simp
  have "all_records ms0 = [rec_a, rec_b, rec_c]" by (simp add: all_records_def ms0_def)
  then have 2: "search_memories lower is_space ms0 [] 0 = [ascii ''Focus on energy'']"
    by (simp add: search_memories_take tokens_spaces matching_no_tokens rec_a_def)
  from 1 2 show ?thesis by simp
qed

section \<open>Recording an interaction\<close>







section \<open>Sessions of the store\<close>

lemma get_or_create_session_fst:
  "fst (get_or_create_session st d u) =
     (case map_of (sessions st) d of
        None \<Rightarrow> \<lparr>s_id = u, s_date = d, morning_context = None, evening_reflection = None,
                  decisions = [], energy_pattern = []\<rparr>
      | Some s \<Rightarrow> s)"
  by (simp add: get_or_create_session_def Let_def split: option.splits)

lemma get_or_create_session_lookup:
  "map_of (sessions (snd (get_or_create_session st d u))) d' =
     (if d' = d then Some (fst (get_or_create_session st d u)) else map_of (sessions st) d')"
  by (simp add: get_or_create_session_def Let_def update_conv' split: option.splits)

lemma get_or_create_session_events:
  "events (snd (get_or_create_session st d u)) = events st"
  by (simp add: get_or_create_session_def Let_def split: option.splits)

text \<open>
  C9. \<open>get_or_create_session\<close> is a total function (it has no failing branch). Called
  for a date it returns the session the store holds for that date, leaving the store as
  it is, or else a new empty session for the date, which the store then holds; no other
  date's session changes. Called again for the same date, whatever identifier a new
  session would get, it returns the same session with the same identifier and changes
  nothing.
\<close>

theorem get_or_create_session_idempotent:
  "(case get_or_create_session st d u1 of
      (s1, st1) \<Rightarrow>
        (case get_or_create_session st1 d u2 of
           (s2, st2) \<Rightarrow>
             s_id s2 = s_id s1 \<and> s2 = s1 \<and> st2 = st1 \<and>
             get_session st1 d = Some s1 \<and>
             (\<forall>d'. d' \<noteq> d \<longrightarrow> get_session st1 d' = get_session st d') \<and>
             (case get_session st d of
                Some s \<Rightarrow> s1 = s \<and> st1 = st
              | None \<Rightarrow> s1 = \<lparr>s_id = u1, s_date = d, morning_context = None,
                               evening_reflection = None, decisions = [],
                               energy_pattern = []\<rparr>)))"
  by (simp add: get_or_create_session_def get_session_def Let_def update_conv' split: option.splits)

theorem get_or_create_session_idempotent_witness:
  "fst (get_or_create_session empty_store 10 1) =
     \<lparr>s_id = 1, s_date = 10, morning_context = None, evening_reflection = None,
      decisions = [], energy_pattern = []\<rparr> \<and>
   s_id (fst (get_or_create_session (snd (get_or_create_session empty_store 10 1)) 10 2)) = 1 \<and>
   snd (get_or_create_session (snd (get_or_create_session empty_store 10 1)) 10 2) =
     snd (get_or_create_session empty_store 10 1)"
  using get_or_create_session_idempotent [where st = empty_store and d = 10 and ?u1.0 = 1 and ?u2.0 = 2]
  by (simp add: get_session_def empty_store_def split: prod.splits)

section \<open>The energy timeline\<close>

lemma timeline_morning:
  "timeline (snd (update_morning_context st d' ctx now u)) d =
     timeline st d @ (if d' = d then [(now, energy_level ctx)] else [])"
  by (simp add: update_morning_context_def timeline_def get_session_def
      get_or_create_session_def Let_def update_conv' split: option.splits prod.splits)

lemma timeline_evening:
  "timeline (snd (update_evening_reflection st d' reflection u)) d =
     timeline st d @ (if d' = d then er_energy_pattern reflection else [])"
  by (simp add: update_evening_reflection_def timeline_def get_session_def
      get_or_create_session_def Let_def update_conv' split: option.splits prod.splits)

lemma timeline_apply_update:
  "timeline (apply_update st u) d = timeline st d @ appended d u"
  by (cases u) (simp_all add: timeline_morning timeline_evening)

lemma timeline_foldl:
  "timeline (foldl apply_update st us) d = timeline st d @ concat (map (appended d) us)"
  by (induction us arbitrary: st) (simp_all add: timeline_apply_update)

text \<open>
  C4. After any sequence of morning-context and evening-reflection updates, for any
  dates, the energy timeline of a date is the timeline it had before followed by the
  samples the updates for that date appended (one per morning update, the reflection's
  own samples per evening update), in the order of the updates: nothing is removed or
  reordered, and the length grows by the number of samples appended.
\<close>

theorem energy_timeline_accumulates:
  "timeline (foldl apply_update st us) d = timeline st d @ concat (map (appended d) us) \<and>
   length (timeline (foldl apply_update st us) d) =
     length (timeline st d) + sum_list (map (\<lambda>u. length (appended d u)) us) \<and>
   length (appended d (Morning d ctx now fresh)) = 1 \<and>
   appended d (Evening d reflection fresh) = er_energy_pattern reflection"
  by (simp add: timeline_foldl length_concat comp_def)

theorem energy_timeline_accumulates_witness:
  "timeline (foldl apply_update empty_store
      [Morning 10 ctx0 480 1,
       Evening 10 (reflection0 [(720, 4), (900, 2)]) 2,
       Evening 10 (reflection0 []) 3,
       Morning 11 ctx0 500 4,
       Morning 10 ctx0 1000 5]) 10
     = [(480, 3), (720, 4), (900, 2), (1000, 3)]"
  using energy_timeline_accumulates [where st = empty_store and d = 10 and us =
      "[Morning 10 ctx0 480 1,
        Evening 10 (reflection0 [(720, 4), (900, 2)]) 2,
        Evening 10 (reflection0 []) 3,
        Morning 11 ctx0 500 4,
        Morning 10 ctx0 1000 5]"]
  by (simp add: timeline_def get_session_def empty_store_def ctx0_def reflection0_def)

subsection \<open>The range of energy levels\<close>

text \<open>
  A morning update made from a context that passed the model's validation adds a
  sample within 1..5.
\<close>

lemma timeline_morning_in_range:
  assumes "MorningContext_valid ctx"
    and "\<forall>(t, level) \<in> set (timeline st d). 1 \<le> level \<and> level \<le> 5"
  shows "\<forall>(t, level) \<in> set (timeline (snd (update_morning_context st d' ctx now u)) d).
           1 \<le> level \<and> level \<le> 5"
  using assms by (auto simp: timeline_morning MorningContext_valid_def)

text \<open>
  C3. An evening reflection that carries the sample \<open>(720, 9)\<close> puts the level 9 on
  the timeline of its date: the store appends a reflection's samples as they are.
\<close>

theorem evening_reflection_out_of_range:
  "timeline (snd (update_evening_reflection empty_store 10 (reflection0 [(720, 9)]) 1)) 10
     = [(720, 9)]"
  by code_simp

section \<open>Recent events and recent decisions\<close>

text \<open>With a limit of at least one, \<open>recent_events\<close> is the last \<open>limit\<close> events, oldest first.\<close>

lemma recent_events_last:
  "1 \<le> limit \<Longrightarrow>
   recent_events st limit = drop (length (events st) - nat limit) (events st)"
proof -
  assume "1 \<le> limit"
  then have "slice_index (- limit) (length (events st)) = length (events st) - nat limit"
    by (auto simp: slice_index_def)
  then show ?thesis by (simp add: recent_events_def slice_from_def)
qed

text \<open>
  C7. With the limit 0 the slice \<^verbatim>\<open>events[-0:]\<close> starts at index 0: \<open>recent_events\<close>
  returns the whole log, where the last 0 events are none.
\<close>

theorem recent_events_limit_zero:
  "recent_events (add_event (add_event empty_store (event0 1)) (event0 2)) 0
     = [event0 1, event0 2]"
  by (simp add: recent_events_def slice_from_def slice_index_def add_event_def empty_store_def)

subsection \<open>Sorting by key, descending\<close>

lemma mset_sorted_desc: "mset (sorted_desc k xs) = mset xs"
  by (simp add: sorted_desc_def)

lemma sorted_wrt_sorted_desc: "sorted_wrt (\<lambda>a b. k a \<ge> k b) (sorted_desc k xs)"
proof -
  have "sorted (map k (sort_key k (rev xs)))" by simp
  then have "sorted_wrt (\<lambda>a b. k a \<le> k b) (sort_key k (rev xs))"
    by (simp only: sorted_wrt_map)
  then show ?thesis by (simp add: sorted_desc_def sorted_wrt_rev)
qed

lemma sorted_desc_stable:
  "filter (\<lambda>x. k x = v) (sorted_desc k xs) = filter (\<lambda>x. k x = v) xs"
proof -
  have "filter (\<lambda>x. k x = v) (sorted_desc k xs)
      = rev (filter (\<lambda>x. k x = v) (sort_key k (rev xs)))"
    by (simp add: sorted_desc_def rev_filter)
  also have "\<dots> = rev (filter (\<lambda>x. k x = v) (rev xs))"
    by (simp only: sort_key_stable)
  also have "\<dots> = filter (\<lambda>x. k x = v) xs"
    by (simp add: rev_filter)
  finally show ?thesis .
qed

lemma mset_concat_map_perm:
  "mset xs = mset ys \<Longrightarrow> mset (concat (map f xs)) = mset (concat (map f ys))"
proof -
  assume e: "mset xs = mset ys"
  have "mset (concat (map f zs)) = sum_mset (image_mset (\<lambda>z. mset (f z)) (mset zs))" for zs
    by (induction zs) simp_all
  with e show ?thesis by simp
qed

text \<open>All decisions of the store, session after session in the store's own order.\<close>

lemma all_decisions_mset:
  "mset (sorted_desc timestamp (concat (map decisions (list_sessions st))))
     = mset (concat (map (decisions \<circ> snd) (sessions st)))"
proof -
  have "mset (list_sessions st) = mset (map snd (sessions st))"
    by (simp add: list_sessions_def mset_sorted_desc)
  then have "mset (concat (map decisions (list_sessions st)))
      = mset (concat (map decisions (map snd (sessions st))))"
    by (rule mset_concat_map_perm)
  then show ?thesis by (simp add: mset_sorted_desc)
qed

text \<open>
  C6. For a limit \<open>n\<close> that is a count (not negative), \<open>recent_decisions\<close> returns the
  first \<open>n\<close> (or all, when there are fewer) of an arrangement of the decisions of all
  sessions that is sorted by timestamp, latest first: the result, followed by the
  decisions left out, holds each decision of each session exactly as often as the
  sessions do, whichever session it came from, and has its timestamps in descending
  order.
\<close>

theorem recent_decisions_sorted_prefix:
  assumes "0 \<le> n"
  shows "\<exists>rest.
           mset (recent_decisions st n @ rest) = mset (concat (map (decisions \<circ> snd) (sessions st))) \<and>
           sorted_wrt (\<lambda>a b. timestamp a \<ge> timestamp b) (recent_decisions st n @ rest) \<and>
           length (recent_decisions st n)
             = min (nat n) (length (concat (map (decisions \<circ> snd) (sessions st))))"
proof -
  let ?all = "sorted_desc timestamp (concat (map decisions (list_sessions st)))"
  from assms have i: "slice_index n (length ?all) = min (nat n) (length ?all)"
    by (auto simp: slice_index_def)
  then have r: "recent_decisions st n = take (min (nat n) (length ?all)) ?all"
    by (simp add: recent_decisions_def slice_to_def)
  let ?rest = "drop (min (nat n) (length ?all)) ?all"
  have a: "recent_decisions st n @ ?rest = ?all"
    unfolding r by (rule append_take_drop_id)
  have "length ?all = length (concat (map (decisions \<circ> snd) (sessions st)))"
    using all_decisions_mset [of st] by (rule mset_eq_length)
  with r have l: "length (recent_decisions st n)
      = min (nat n) (length (concat (map (decisions \<circ> snd) (sessions st))))"
    by simp
  have m: "mset (recent_decisions st n @ ?rest) = mset (concat (map (decisions \<circ> snd) (sessions st)))"
    unfolding a by (rule all_decisions_mset)
  have s: "sorted_wrt (\<lambda>a b. timestamp a \<ge> timestamp b) (recent_decisions st n @ ?rest)"
    unfolding a by (rule sorted_wrt_sorted_desc)
  from m s l show ?thesis by blast
qed

theorem recent_decisions_sorted_prefix_witness:
  "recent_decisions
     (snd (add_decision (snd (add_decision (snd (add_decision empty_store
        10 (decision0 1 5) 100)) 11 (decision0 2 9) 101)) 10 (decision0 3 7) 102)) 2
     = [decision0 2 9, decision0 3 7] \<and>
   (\<exists>rest.
      mset ([decision0 2 9, decision0 3 7] @ rest)
        = mset [decision0 1 5, decision0 3 7, decision0 2 9] \<and>
      sorted_wrt (\<lambda>a b. timestamp a \<ge> timestamp b) ([decision0 2 9, decision0 3 7] @ rest))"
proof -
  let ?st = "snd (add_decision (snd (add_decision (snd (add_decision empty_store
        10 (decision0 1 5) 100)) 11 (decision0 2 9) 101)) 10 (decision0 3 7) 102)"
  have e: "recent_decisions ?st 2 = [decision0 2 9, decision0 3 7]"
    by code_simp
  have c: "concat (map (decisions \<circ> snd) (sessions ?st)) = [decision0 1 5, decision0 3 7, decision0 2 9]"
    by code_simp
  have n: "(0::int) \<le> 2" by simp
  from recent_decisions_sorted_prefix [OF n, of ?st] show ?thesis
    unfolding e c by blast
qed

section \<open>The weekly report\<close>

lemma get_sessions_between_set:
  "set (get_sessions_between st a b) = {s. \<exists>d. (d, s) \<in> set (sessions st) \<and> a \<le> d \<and> d \<le> b}"
  by (auto simp: get_sessions_between_def image_iff)

lemma high_energy_iff:
  "high_energy s \<longleftrightarrow> (\<exists>(t, level) \<in> set (energy_pattern s). level \<ge> 4)"
proof (cases "energy_pattern s = []")
  case True
  then show ?thesis by (simp add: high_energy_def)
next
  case False
  then have "(4 \<le> Max (snd ` set (energy_pattern s)))
      = (\<exists>a \<in> snd ` set (energy_pattern s). 4 \<le> a)"
    by (intro Max_ge_iff) simp_all
  with False show ?thesis by (fastforce simp: high_energy_def)
qed

lemma average_energy_None:
  "average_energy ss = None \<longleftrightarrow> (\<forall>s \<in> set ss. energy_pattern s = [])"
  by (auto simp: average_energy_def Let_def)

lemma average_energy_Some:
  "average_energy ss = Some a \<Longrightarrow>
   a = of_int (sum_list (concat (map (\<lambda>s. map snd (energy_pattern s)) ss)))
       / of_int (int (length (concat (map (\<lambda>s. map snd (energy_pattern s)) ss))))"
  by (auto simp: average_energy_def Let_def split: if_splits)

lemma sum_list_ge_length: "\<forall>x \<in> set xs. 1 \<le> x \<Longrightarrow> int (length xs) \<le> sum_list xs"
  by (induction xs) auto

text \<open>
  The window is the seven days ending today, and the report's lines follow the
  sessions in it. The average is put on the report when it is not zero, which holds
  whenever every sample in the window is at least 1.
\<close>

lemma weekly_patterns_report:
  assumes "7 \<le> today" and "today \<le> 3652059"
  shows "\<exists>r. weekly_patterns st today = Inr r \<and>
          (let ss = get_sessions_between st (today - 6) today in
             (HighEnergyOn (map s_date (filter high_energy ss)) \<in> set (highlights r)
                \<longleftrightarrow> filter high_energy ss \<noteq> []) \<and>
             CapturedReflections (length (filter (\<lambda>s. evening_reflection s \<noteq> None) ss))
                \<in> set (highlights r) \<and>
             (\<forall>a. average_energy ss = Some a \<and> a \<noteq> 0 \<longrightarrow> energy_trends r = [AverageRecordedEnergy a]) \<and>
             (average_energy ss = None \<longrightarrow> energy_trends r = []))"
  using assms
  by (auto simp: weekly_patterns_def date_minus_days_def Let_def split: option.splits)

lemma average_energy_nonzero:
  assumes "average_energy ss = Some a"
    and "\<forall>s \<in> set ss. \<forall>(t, level) \<in> set (energy_pattern s). 1 \<le> level"
  shows "a \<noteq> 0"
proof -
  let ?points = "concat (map (\<lambda>s. map snd (energy_pattern s)) ss)"
  from assms(1) have ne: "?points \<noteq> []"
    by (auto simp: average_energy_def Let_def split: if_splits)
  from assms(2) have "\<forall>x \<in> set ?points. 1 \<le> x" by fastforce
  then have "int (length ?points) \<le> sum_list ?points" by (rule sum_list_ge_length)
  with ne have "0 < sum_list ?points" by (cases ?points) auto
  with ne average_energy_Some[OF assms(1)] show ?thesis by simp
qed

text \<open>
  C8. A store whose only session, today's, holds the single energy sample \<open>(720, 0)\<close>
  (put there by an evening reflection): the window has a sample and the average is 0,
  yet the report carries no average, because the report tests the average for truth.
\<close>

theorem weekly_patterns_zero_average:
  "weekly_patterns
     (snd (update_evening_reflection empty_store 739000 (reflection0 [(720, 0)]) 1)) 739000
     = Inr \<lparr>summary = ''Weekly review prepared.'',
            highlights = [CapturedReflections 1],
            energy_trends = []\<rparr> \<and>
   average_energy (get_sessions_between
     (snd (update_evening_reflection empty_store 739000 (reflection0 [(720, 0)]) 1))
     738994 739000) = Some 0"
proof -
  have 1: "weekly_patterns
     (snd (update_evening_reflection empty_store 739000 (reflection0 [(720, 0)]) 1)) 739000
     = Inr \<lparr>summary = ''Weekly review prepared.'',
            highlights = [CapturedReflections 1],
            energy_trends = []\<rparr>"
    by code_simp
  have 2: "average_energy (get_sessions_between
     (snd (update_evening_reflection empty_store 739000 (reflection0 [(720, 0)]) 1))
     738994 739000) = Some 0"
    by code_simp
  from 1 2 show ?thesis by simp
qed

end

